theory Spec2Isabelle
  imports Main
begin

section \<open>The certificate ledger of \<open>script.js\<close>\<close>

text \<open>
  The ledger is a JavaScript array of \<open>Block\<close> objects, each carrying the SHA-256 digest
  of its own fields and the digest of its predecessor. Two functions come from outside
  the file and are parameters of every definition that uses them:
  \<^item> \<open>SHA256\<close>: \<open>CryptoJS.SHA256(...).toString()\<close>, from a message to its hexadecimal digest;
  \<^item> \<open>stringify\<close>: \<open>JSON.stringify\<close> on the payload of a block.

  JavaScript strings and the bytes of a file are both modelled as \<open>string\<close>. The results of
  \<open>new Date().toISOString()\<close> are inputs. An exception is a value \<open>Inl e\<close> of a sum
  type, and the JavaScript value \<open>undefined\<close> is \<open>None\<close>.
\<close>

subsection \<open>Data\<close>

text \<open>
  The \<open>data\<close> field of a block holds a JavaScript value: the genesis block holds the
  string \<open>"Genesis Block"\<close>, an issued block holds a certificate object, and code that
  overwrites the field can store any other value. A value is a string, a number (the
  integer-valued ones), a boolean, an array, or an object, given by its own enumerable
  properties in the order in which JavaScript enumerates them, so that two objects
  with the same properties in a different order, or with one property more, are
  different values. \<open>null\<close> and \<open>undefined\<close> are left out: line 144 reads a property
  of the payload.
\<close>

datatype payload =
    Text string
  | Number int
  | Boolean bool
  | Array "payload list"
  | Object "(string \<times> payload) list"

text \<open>
  The five strings that the issue handler puts into the object literal
  \<open>certificateData\<close> (lines 92 to 98), and the object it builds from them.
\<close>

record certificateData =
  student :: string
  course :: string
  institution :: string
  issueDate :: string
  fileHash :: string

definition certificateObject :: "certificateData \<Rightarrow> payload" where
  "certificateObject c =
     Object [(''student'', Text (student c)),
             (''course'', Text (course c)),
             (''institution'', Text (institution c)),
             (''issueDate'', Text (issueDate c)),
             (''fileHash'', Text (fileHash c))]"

text \<open>The fields of class \<open>Block\<close> (lines 5 to 9).\<close>

record block =
  index :: nat
  timestamp :: string
  data :: payload
  previousHash :: string
  hash :: string

text \<open>
  What the code can throw or reject with: a \<open>TypeError\<close> on reading a property of
  \<open>undefined\<close>, and the error event of a \<open>FileReader\<close>.
\<close>

datatype js_error = TypeError | ReadError

subsection \<open>Class \<open>Block\<close>\<close>

text \<open>
  A block index is a non-negative integer below the largest length of an array, and
  JavaScript's conversion of such a number to a string, used by
  \<open>this.index + this.previousHash\<close>, is its decimal numeral.
\<close>

definition digit :: "nat \<Rightarrow> char" where
  "digit d = char_of (48 + d)"

function number_toString :: "nat \<Rightarrow> string" where
  "number_toString n =
     (if n < 10 then [digit n] else number_toString (n div 10) @ [digit (n mod 10)])"
  by pat_completeness auto
termination
  by (relation "measure (\<lambda>n. n)") auto

declare number_toString.simps [simp del]

text \<open>\<open>calculateHash\<close> (lines 12 to 16).\<close>

definition calculateHash :: "(string \<Rightarrow> string) \<Rightarrow> (payload \<Rightarrow> string) \<Rightarrow> block \<Rightarrow> string" where
  "calculateHash SHA256 stringify this =
     SHA256 (number_toString (index this) @ previousHash this @ timestamp this
             @ stringify (data this))"

text \<open>
  The constructor of \<open>Block\<close> (lines 4 to 10): the four fields are stored, then the digest
  is computed from them. The caller passes \<open>''''\<close> where the source uses the default
  value of \<open>previousHash\<close>.
\<close>

definition new_Block ::
  "(string \<Rightarrow> string) \<Rightarrow> (payload \<Rightarrow> string) \<Rightarrow> nat \<Rightarrow> string \<Rightarrow> payload \<Rightarrow> string \<Rightarrow> block" where
  "new_Block SHA256 stringify idx ts d prev =
     (let this = \<lparr>index = idx, timestamp = ts, data = d, previousHash = prev, hash = ''''\<rparr>
      in this\<lparr>hash := calculateHash SHA256 stringify this\<rparr>)"

subsection \<open>Class \<open>Blockchain\<close>\<close>

text \<open>The only field of a \<open>Blockchain\<close> is the array \<open>this.chain\<close>.\<close>

type_synonym blockchain = "block list"

text \<open>\<open>createGenesisBlock\<close> (lines 24 to 26); \<open>now\<close> is \<open>new Date().toISOString()\<close>.\<close>

definition createGenesisBlock ::
  "(string \<Rightarrow> string) \<Rightarrow> (payload \<Rightarrow> string) \<Rightarrow> string \<Rightarrow> block" where
  "createGenesisBlock SHA256 stringify now =
     new_Block SHA256 stringify 0 now (Text ''Genesis Block'') ''0''"

text \<open>The constructor of \<open>Blockchain\<close> (lines 20 to 22).\<close>

definition new_Blockchain ::
  "(string \<Rightarrow> string) \<Rightarrow> (payload \<Rightarrow> string) \<Rightarrow> string \<Rightarrow> blockchain" where
  "new_Blockchain SHA256 stringify now = [createGenesisBlock SHA256 stringify now]"

text \<open>
  \<open>getLatestBlock\<close> (lines 28 to 30) reads \<open>this.chain[this.chain.length - 1]\<close>. On an
  empty array that is the property \<open>-1\<close>, which does not exist: the read gives
  \<open>undefined\<close> and nothing is thrown.
\<close>

definition getLatestBlock :: "blockchain \<Rightarrow> js_error + block option" where
  "getLatestBlock chain =
     Inr (if length chain = 0 then None else Some (chain ! (length chain - 1)))"

text \<open>
  \<open>addBlock\<close> (lines 32 to 36). Reading \<open>.hash\<close> of \<open>undefined\<close> throws a
  \<open>TypeError\<close> before anything is stored.
\<close>

definition addBlock ::
  "(string \<Rightarrow> string) \<Rightarrow> (payload \<Rightarrow> string) \<Rightarrow> block \<Rightarrow> blockchain \<Rightarrow> js_error + blockchain" where
  "addBlock SHA256 stringify newBlock chain =
     (case getLatestBlock chain of
        Inl e \<Rightarrow> Inl e
      | Inr None \<Rightarrow> Inl TypeError
      | Inr (Some latest) \<Rightarrow>
          (let newBlock1 = newBlock\<lparr>previousHash := hash latest\<rparr>;
               newBlock2 = newBlock1\<lparr>hash := calculateHash SHA256 stringify newBlock1\<rparr>
           in Inr (chain @ [newBlock2])))"

text \<open>
  \<open>isChainValid\<close> (lines 38 to 46). The loop is a recursive function of the counter
  \<open>i\<close>; it gives back the value of \<open>i\<close> at which the function returns together with
  the returned value. The counter starts at \<open>1\<close>, so \<open>i - 1\<close> is never below \<open>0\<close>.
\<close>

function isChainValid_loop ::
  "(string \<Rightarrow> string) \<Rightarrow> (payload \<Rightarrow> string) \<Rightarrow> blockchain \<Rightarrow> nat \<Rightarrow> nat \<times> bool" where
  "isChainValid_loop SHA256 stringify chain i =
     (if i < length chain then
        (if hash (chain ! i) \<noteq> calculateHash SHA256 stringify (chain ! i) then (i, False)
         else if previousHash (chain ! i) \<noteq> hash (chain ! (i - 1)) then (i, False)
         else isChainValid_loop SHA256 stringify chain (i + 1))
      else (i, True))"
  by pat_completeness auto
termination
  by (relation "measure (\<lambda>(SHA256, stringify, chain, i). length chain - i)") auto

declare isChainValid_loop.simps [simp del]

definition isChainValid :: "(string \<Rightarrow> string) \<Rightarrow> (payload \<Rightarrow> string) \<Rightarrow> blockchain \<Rightarrow> bool" where
  "isChainValid SHA256 stringify chain = snd (isChainValid_loop SHA256 stringify chain 1)"

subsection \<open>The handlers of the page\<close>

text \<open>
  Issuing a certificate, lines 100 and 101 of the \<open>issueBtn\<close> handler: a block is built
  at the index after the latest one, with the default \<open>previousHash\<close>, and handed to
  \<open>addBlock\<close>; \<open>now\<close> is \<open>new Date().toISOString()\<close>.
\<close>

definition issueBlock ::
  "(string \<Rightarrow> string) \<Rightarrow> (payload \<Rightarrow> string) \<Rightarrow> certificateData \<Rightarrow> string \<Rightarrow> blockchain
     \<Rightarrow> js_error + blockchain" where
  "issueBlock SHA256 stringify certificate now certChain =
     (case getLatestBlock certChain of
        Inl e \<Rightarrow> Inl e
      | Inr None \<Rightarrow> Inl TypeError
      | Inr (Some latest) \<Rightarrow>
          addBlock SHA256 stringify
            (new_Block SHA256 stringify (index latest + 1) now (certificateObject certificate) '''')
            certChain)"

text \<open>A sequence of issues, each with its certificate and its time; the first error ends it.\<close>

fun issueAll ::
  "(string \<Rightarrow> string) \<Rightarrow> (payload \<Rightarrow> string) \<Rightarrow> (certificateData \<times> string) list \<Rightarrow> blockchain
     \<Rightarrow> js_error + blockchain" where
  "issueAll SHA256 stringify [] certChain = Inr certChain"
| "issueAll SHA256 stringify ((certificate, now) # rest) certChain =
     (case issueBlock SHA256 stringify certificate now certChain of
        Inl e \<Rightarrow> Inl e
      | Inr certChain' \<Rightarrow> issueAll SHA256 stringify rest certChain')"

text \<open>
  \<open>hashFile\<close> (lines 64 to 76): the promise resolves with the digest of the bytes read,
  or rejects when the reader fails. \<open>readAsArrayBuffer\<close> is the reader of the
  browser: the bytes of the file, or \<open>None\<close> on a read error.
\<close>

definition hashFile ::
  "(string \<Rightarrow> string) \<Rightarrow> ('file \<Rightarrow> string option) \<Rightarrow> 'file \<Rightarrow> js_error + string" where
  "hashFile SHA256 readAsArrayBuffer file =
     (case readAsArrayBuffer file of
        None \<Rightarrow> Inl ReadError
      | Some binary \<Rightarrow> Inr (SHA256 binary))"

text \<open>
  \<open>blockToVerify.data.fileHash\<close> (line 144): the value of the property \<open>fileHash\<close> of
  an object, and \<open>undefined\<close> when the object has no such property or when the payload
  is a string, a number, a boolean or an array.
\<close>

fun data_fileHash :: "payload \<Rightarrow> payload option" where
  "data_fileHash (Object properties) = map_of properties ''fileHash''"
| "data_fileHash (Text s) = None"
| "data_fileHash (Number n) = None"
| "data_fileHash (Boolean b) = None"
| "data_fileHash (Array elements) = None"

text \<open>
  The \<open>verifyCertBtn\<close> handler (lines 127 to 157). \<open>blockNumber\<close> is the result of
  \<open>parseInt\<close>, \<open>None\<close> for \<open>NaN\<close>; \<open>pdfToVerify\<close> is \<open>None\<close> when no file was
  chosen. The handler ends in one of three alerts or in one of two status lines. The
  uploaded digest is a string, and \<open>===\<close> holds only when the stored value is the same
  string.
\<close>

datatype alert =
    SpecifyBlockAndPdf  \<comment> \<open>"Please specify a block number and upload the PDF to verify."\<close>
  | InvalidBlockNumber  \<comment> \<open>"Invalid block number. Please enter a valid index from the chain."\<close>
  | CouldNotVerify      \<comment> \<open>"Could not verify the certificate."\<close>

datatype certStatus = AUTHENTIC | TAMPERED

definition verifyCertBtn_click ::
  "(string \<Rightarrow> string) \<Rightarrow> ('file \<Rightarrow> string option) \<Rightarrow> blockchain \<Rightarrow> int option \<Rightarrow> 'file option
     \<Rightarrow> alert + certStatus" where
  "verifyCertBtn_click SHA256 readAsArrayBuffer certChain blockNumber pdfToVerify =
     (case (blockNumber, pdfToVerify) of
        (None, _) \<Rightarrow> Inl SpecifyBlockAndPdf
      | (_, None) \<Rightarrow> Inl SpecifyBlockAndPdf
      | (Some n, Some pdf) \<Rightarrow>
          if n \<le> 0 \<or> n \<ge> int (length certChain) then Inl InvalidBlockNumber
          else
            (case hashFile SHA256 readAsArrayBuffer pdf of
               Inl e \<Rightarrow> Inl CouldNotVerify
             | Inr uploadedFileHash \<Rightarrow>
                 (let blockToVerify = certChain ! nat n;
                      storedHash = data_fileHash (data blockToVerify)
                  in if Some (Text uploadedFileHash) = storedHash then Inr AUTHENTIC
                     else Inr TAMPERED)))"

subsection \<open>The invariants of the ledger\<close>

text \<open>
  Self-consistency of a record: its stored digest is the digest recomputed from its
  fields. Linkage at an index: the stored previous digest is the digest of the record
  before it.
\<close>

definition self_consistent :: "(string \<Rightarrow> string) \<Rightarrow> (payload \<Rightarrow> string) \<Rightarrow> block \<Rightarrow> bool" where
  "self_consistent SHA256 stringify b \<longleftrightarrow> hash b = calculateHash SHA256 stringify b"

definition linked :: "blockchain \<Rightarrow> nat \<Rightarrow> bool" where
  "linked chain i \<longleftrightarrow> previousHash (chain ! i) = hash (chain ! (i - 1))"

text \<open>
  The three invariants together, on a ledger that has its genesis record: every record
  sits at its own position, and every record after the first is self-consistent and
  linked.
\<close>

definition ledger_ok :: "(string \<Rightarrow> string) \<Rightarrow> (payload \<Rightarrow> string) \<Rightarrow> blockchain \<Rightarrow> bool" where
  "ledger_ok SHA256 stringify chain \<longleftrightarrow>
     chain \<noteq> [] \<and> (\<forall>i < length chain. index (chain ! i) = i) \<and>
     (\<forall>i. 1 \<le> i \<and> i < length chain \<longrightarrow>
        self_consistent SHA256 stringify (chain ! i) \<and> linked chain i)"

text \<open>
  A valid chain in the words of the specification: Invariant 1, linkage at every index
  above \<open>0\<close>; Invariant 2, self-consistency of every record, the genesis record
  included; Invariant 3, every record at its own position.
\<close>

definition invariants_hold :: "(string \<Rightarrow> string) \<Rightarrow> (payload \<Rightarrow> string) \<Rightarrow> blockchain \<Rightarrow> bool" where
  "invariants_hold SHA256 stringify records \<longleftrightarrow>
     (\<forall>i. 0 < i \<and> i < length records \<longrightarrow>
        previousHash (records ! i) = hash (records ! (i - 1))) \<and>
     (\<forall>i < length records. hash (records ! i) = calculateHash SHA256 stringify (records ! i)) \<and>
     (\<forall>i < length records. index (records ! i) = i)"

subsection \<open>Sample digest and serialisation\<close>

text \<open>
  A toy digest and a toy serialisation, to run the definitions on concrete chains. Both
  are injective: the digest keeps its whole message, and the serialisation writes every
  value so that where it ends can be read off. Every general statement below is about
  an arbitrary \<open>SHA256\<close> and an arbitrary \<open>stringify\<close>.
\<close>

definition sample_SHA256 :: "string \<Rightarrow> string" where
  "sample_SHA256 s = CHR ''#'' # s"

text \<open>A string: every character after a dot, then a closing quote.\<close>

fun sample_string :: "string \<Rightarrow> string" where
  "sample_string [] = [CHR 0x22]"
| "sample_string (c # s) = CHR ''.'' # c # sample_string s"

text \<open>A number: its sign, as many strokes as its absolute value, then a semicolon.\<close>

definition sample_number :: "int \<Rightarrow> string" where
  "sample_number n =
     (if n < 0 then CHR ''-'' else CHR ''+'') # replicate (nat \<bar>n\<bar>) CHR ''1'' @ '';''"

fun sample_stringify :: "payload \<Rightarrow> string" where
  "sample_stringify (Text s) = CHR 0x22 # sample_string s"
| "sample_stringify (Number n) = CHR ''n'' # sample_number n"
| "sample_stringify (Boolean b) = (if b then ''t'' else ''f'')"
| "sample_stringify (Array elements) =
     CHR ''['' # concat (map (\<lambda>x. CHR '','' # sample_stringify x) elements) @ '']''"
| "sample_stringify (Object properties) =
     CHR ''{'' # concat (map (\<lambda>p. CHR '','' # sample_string (fst p) @ sample_stringify (snd p))
                           properties) @ ''}''"

definition sample_certificate :: "string \<Rightarrow> string \<Rightarrow> certificateData" where
  "sample_certificate who h =
     \<lparr>student = who, course = ''c'', institution = ''u'', issueDate = ''d'', fileHash = h\<rparr>"

definition sample_chain :: blockchain where
  "sample_chain =
     (case issueAll sample_SHA256 sample_stringify
             [(sample_certificate ''a'' ''#p1'', ''t1''), (sample_certificate ''b'' ''#p2'', ''t2'')]
             (new_Blockchain sample_SHA256 sample_stringify ''t0'') of
        Inl e \<Rightarrow> []
      | Inr c \<Rightarrow> c)"

section \<open>Properties\<close>

subsection \<open>The validation loop\<close>

lemma isChainValid_loop_snd:
  "snd (isChainValid_loop S J c i) \<longleftrightarrow>
     (\<forall>j. i \<le> j \<and> j < length c \<longrightarrow> self_consistent S J (c ! j) \<and> linked c j)"
proof (induction S J c i rule: isChainValid_loop.induct)
  case (1 S J c i)
  show ?case
  proof (cases "i < length c")
    case False
    then have "isChainValid_loop S J c i = (i, True)"
      by (simp add: isChainValid_loop.simps [of S J c i])
    with False show ?thesis by auto
  next
    case True
    show ?thesis
    proof (cases "self_consistent S J (c ! i) \<and> linked c i")
      case False
      with True show ?thesis
        by (auto simp add: isChainValid_loop.simps [of S J c i] self_consistent_def linked_def)
    next
      case ok: True
      with True have "isChainValid_loop S J c i = isChainValid_loop S J c (i + 1)"
        by (simp add: isChainValid_loop.simps [of S J c i] self_consistent_def linked_def)
      moreover have "snd (isChainValid_loop S J c (i + 1)) \<longleftrightarrow>
         (\<forall>j. i + 1 \<le> j \<and> j < length c \<longrightarrow> self_consistent S J (c ! j) \<and> linked c j)"
        using "1.IH" True ok by (simp add: self_consistent_def linked_def)
      moreover have "(\<forall>j. i \<le> j \<and> j < length c \<longrightarrow> self_consistent S J (c ! j) \<and> linked c j)
         \<longleftrightarrow> (\<forall>j. i + 1 \<le> j \<and> j < length c \<longrightarrow> self_consistent S J (c ! j) \<and> linked c j)"
        using ok by (metis Suc_eq_plus1 Suc_leI le_neq_implies_less add_leD1 le_add1 order_trans)
      ultimately show ?thesis by simp
    qed
  qed
qed

lemma isChainValid_loop_first:
  "i \<le> k \<Longrightarrow> k < length c \<Longrightarrow> \<not> (self_consistent S J (c ! k) \<and> linked c k) \<Longrightarrow>
   (\<forall>j. i \<le> j \<and> j < k \<longrightarrow> self_consistent S J (c ! j) \<and> linked c j) \<Longrightarrow>
   isChainValid_loop S J c i = (k, False)"
proof (induction S J c i rule: isChainValid_loop.induct)
  case (1 S J c i)
  show ?case
  proof (cases "i = k")
    case True
    with "1.prems" show ?thesis
      by (auto simp add: isChainValid_loop.simps [of S J c k] self_consistent_def linked_def)
  next
    case False
    with "1.prems" have lt: "i < k" and ok: "self_consistent S J (c ! i) \<and> linked c i" by auto
    with "1.prems" have "isChainValid_loop S J c i = isChainValid_loop S J c (i + 1)"
      by (simp add: isChainValid_loop.simps [of S J c i] self_consistent_def linked_def)
    moreover have "isChainValid_loop S J c (i + 1) = (k, False)"
      using "1.IH" "1.prems" lt ok by (simp add: self_consistent_def linked_def)
    ultimately show ?thesis by simp
  qed
qed

lemma isChainValid_loop_valid:
  "i \<le> length c \<Longrightarrow> snd (isChainValid_loop S J c i) \<Longrightarrow> isChainValid_loop S J c i = (length c, True)"
proof (induction S J c i rule: isChainValid_loop.induct)
  case (1 S J c i)
  show ?case
  proof (cases "i < length c")
    case False
    then have "isChainValid_loop S J c i = (i, True)"
      by (simp add: isChainValid_loop.simps [of S J c i])
    with False "1.prems" show ?thesis by auto
  next
    case True
    with "1.prems" show ?thesis using "1.IH"
      by (auto simp add: isChainValid_loop.simps [of S J c i] split: if_splits)
  qed
qed

lemma isChainValid_loop_end:
  "length c \<le> i \<Longrightarrow> isChainValid_loop S J c i = (i, True)"
  by (subst isChainValid_loop.simps) simp

lemma valid_chain_checks:
  "isChainValid S J c \<Longrightarrow> 1 \<le> i \<Longrightarrow> i < length c \<Longrightarrow>
     hash (c ! i) = calculateHash S J (c ! i) \<and> previousHash (c ! i) = hash (c ! (i - 1))"
  by (simp add: isChainValid_def isChainValid_loop_snd self_consistent_def linked_def)

lemma isChainValidI:
  "(\<And>i. 1 \<le> i \<Longrightarrow> i < length c \<Longrightarrow>
     hash (c ! i) = calculateHash S J (c ! i) \<and> previousHash (c ! i) = hash (c ! (i - 1)))
   \<Longrightarrow> isChainValid S J c"
  by (simp add: isChainValid_def isChainValid_loop_snd self_consistent_def linked_def)


subsection \<open>Records and appends\<close>

lemma calculateHash_hash_update [simp]:
  "calculateHash S J (b\<lparr>hash := h\<rparr>) = calculateHash S J b"
  by (simp add: calculateHash_def)

lemma new_Block_fields [simp]:
  "index (new_Block S J i t d p) = i"
  "timestamp (new_Block S J i t d p) = t"
  "data (new_Block S J i t d p) = d"
  "previousHash (new_Block S J i t d p) = p"
  "hash (new_Block S J i t d p) = S (number_toString i @ p @ t @ J d)"
  by (simp_all add: new_Block_def calculateHash_def Let_def)

lemma new_Block_self_consistent: "self_consistent S J (new_Block S J i t d p)"
  by (simp add: self_consistent_def calculateHash_def)

lemma issueBlock_nonempty:
  assumes "c \<noteq> []"
  shows "issueBlock S J cert now c =
           Inr (c @ [new_Block S J (index (last c) + 1) now (certificateObject cert) (hash (last c))])"
proof -
  from assms have latest: "getLatestBlock c = Inr (Some (last c))"
    by (simp add: getLatestBlock_def last_conv_nth)
  show ?thesis
    by (simp add: issueBlock_def addBlock_def latest Let_def new_Block_def calculateHash_def)
qed

lemma issueBlock_empty: "issueBlock S J cert now [] = Inl TypeError"
  by (simp add: issueBlock_def getLatestBlock_def)

lemma ledger_ok_snoc:
  assumes ok: "ledger_ok S J c"
  shows "ledger_ok S J (c @ [new_Block S J (index (last c) + 1) now d (hash (last c))])"
proof -
  let ?b = "new_Block S J (index (last c) + 1) now d (hash (last c))"
  from ok have ne: "c \<noteq> []" by (simp add: ledger_ok_def)
  then have last_nth: "last c = c ! (length c - 1)" by (simp add: last_conv_nth)
  from ok ne have idx_last: "index (last c) = length c - 1"
    by (simp add: ledger_ok_def last_nth)
  have b_cons: "self_consistent S J ?b"
    by (rule new_Block_self_consistent)
  have idx: "index ((c @ [?b]) ! i) = i" if "i < length (c @ [?b])" for i
  proof (cases "i < length c")
    case True
    with ok show ?thesis by (simp add: ledger_ok_def nth_append)
  next
    case False
    with that have "i = length c" by simp
    with ne idx_last show ?thesis by (simp add: nth_append)
  qed
  have inv: "self_consistent S J ((c @ [?b]) ! i) \<and> linked (c @ [?b]) i"
    if "1 \<le> i" "i < length (c @ [?b])" for i
  proof (cases "i < length c")
    case True
    then have "i - 1 < length c" by simp
    with True ok that show ?thesis by (simp add: ledger_ok_def nth_append linked_def)
  next
    case False
    with that have i: "i = length c" by simp
    from ne have "length c - 1 < length c" by (cases c) simp_all
    with i ne b_cons show ?thesis
      by (simp add: nth_append linked_def last_nth)
  qed
  from idx inv show ?thesis
    unfolding ledger_ok_def by blast
qed

lemma ledger_ok_genesis: "ledger_ok S J (new_Blockchain S J now)"
  by (simp add: ledger_ok_def new_Blockchain_def createGenesisBlock_def)

lemma issueAll_ok:
  "ledger_ok S J c \<Longrightarrow>
   (case issueAll S J ps c of
      Inl e \<Rightarrow> False
    | Inr c' \<Rightarrow> length c' = length c + length ps \<and> ledger_ok S J c')"
proof (induction ps arbitrary: c)
  case Nil
  then show ?case by simp
next
  case (Cons p ps)
  obtain cert now where p: "p = (cert, now)" by (cases p)
  let ?c = "c @ [new_Block S J (index (last c) + 1) now (certificateObject cert) (hash (last c))]"
  from Cons.prems have ne: "c \<noteq> []" by (simp add: ledger_ok_def)
  have step: "issueBlock S J cert now c = Inr ?c" by (rule issueBlock_nonempty [OF ne])
  have "ledger_ok S J ?c" by (rule ledger_ok_snoc [OF Cons.prems])
  from Cons.IH [OF this] show ?case
    by (simp add: p step split: sum.splits)
qed

subsection \<open>The sample chain\<close>

lemma sample_chain_valid: "isChainValid sample_SHA256 sample_stringify sample_chain"
  by code_simp

lemma sample_chain_length: "length sample_chain = 3"
  by code_simp

subsection \<open>The sample digest and serialisation are injective\<close>








subsection \<open>Chains built by issuing, and digests under an injective \<open>SHA256\<close>\<close>



lemma invariants_hold_isChainValid:
  "invariants_hold S J c \<Longrightarrow> isChainValid S J c"
  by (rule isChainValidI) (simp add: invariants_hold_def)








section \<open>The claims\<close>

text \<open>
  C1. Starting from a freshly created ledger, any sequence of issues runs to the end
  without an error, and afterwards the ledger has one record more than the number of
  issues and, at every index \<open>i\<close> from \<open>1\<close> to that number, the record's previous digest
  is the digest of the record before it, its position is \<open>i\<close>, and its stored digest
  is the digest recomputed from its fields. As the sequence is arbitrary, this holds
  after every single append.
\<close>

theorem append_keeps_invariants:
  "(case issueAll S J ps (new_Blockchain S J now) of
      Inl e \<Rightarrow> False
    | Inr c \<Rightarrow>
        length c = length ps + 1 \<and>
        (\<forall>i. 1 \<le> i \<and> i \<le> length ps \<longrightarrow>
           previousHash (c ! i) = hash (c ! (i - 1)) \<and>
           index (c ! i) = i \<and>
           hash (c ! i) = calculateHash S J (c ! i)))"
proof -
  have "case issueAll S J ps (new_Blockchain S J now) of
      Inl e \<Rightarrow> False
    | Inr c' \<Rightarrow> length c' = length (new_Blockchain S J now) + length ps \<and> ledger_ok S J c'"
    by (rule issueAll_ok [OF ledger_ok_genesis])
  then show ?thesis
    by (auto simp add: new_Blockchain_def ledger_ok_def self_consistent_def linked_def
        split: sum.splits)
qed

theorem append_keeps_invariants_witness:
  "(1::nat) \<le> 2 \<and>
   2 \<le> length [(sample_certificate ''a'' ''#p1'', ''t1''), (sample_certificate ''b'' ''#p2'', ''t2'')] \<and>
   (case issueAll sample_SHA256 sample_stringify
           [(sample_certificate ''a'' ''#p1'', ''t1''), (sample_certificate ''b'' ''#p2'', ''t2'')]
           (new_Blockchain sample_SHA256 sample_stringify ''t0'') of
      Inl e \<Rightarrow> False
    | Inr c \<Rightarrow>
        length c = 3 \<and>
        previousHash (c ! 2) = hash (c ! 1) \<and>
        index (c ! 2) = 2 \<and>
        hash (c ! 2) = calculateHash sample_SHA256 sample_stringify (c ! 2))"
proof -
  let ?ps = "[(sample_certificate ''a'' ''#p1'', ''t1''), (sample_certificate ''b'' ''#p2'', ''t2'')]"
  have h: "(1::nat) \<le> 2 \<and> 2 \<le> length ?ps" by simp
  have one: "(2::nat) - 1 = 1" by simp
  from append_keeps_invariants [where S = sample_SHA256 and J = sample_stringify and ps = ?ps and now = "''t0''"]
  show ?thesis
  proof (cases "issueAll sample_SHA256 sample_stringify ?ps
                  (new_Blockchain sample_SHA256 sample_stringify ''t0'')")
    case (Inl e)
    with append_keeps_invariants [where S = sample_SHA256 and J = sample_stringify and ps = ?ps and now = "''t0''"]
    show ?thesis by simp
  next
    case (Inr c)
    with append_keeps_invariants [where S = sample_SHA256 and J = sample_stringify and ps = ?ps and now = "''t0''"]
    have len: "length c = length ?ps + 1"
      and all: "\<forall>i. 1 \<le> i \<and> i \<le> length ?ps \<longrightarrow>
           previousHash (c ! i) = hash (c ! (i - 1)) \<and>
           index (c ! i) = i \<and>
           hash (c ! i) = calculateHash sample_SHA256 sample_stringify (c ! i)"
      by simp_all
    from all h have "previousHash (c ! 2) = hash (c ! (2 - 1)) \<and>
           index (c ! 2) = 2 \<and>
           hash (c ! 2) = calculateHash sample_SHA256 sample_stringify (c ! 2)"
      by blast
    with len one Inr show ?thesis by simp
  qed
qed

text \<open>
  C2. \<open>isChainValid\<close> returns \<open>true\<close> exactly when every index from \<open>1\<close> to the end is
  self-consistent and linked. When \<open>k\<close> is the first index that violates one of the two
  checks, the function returns \<open>false\<close> in the iteration \<open>i = k\<close>; when there is no
  such index, it returns \<open>true\<close> after the loop has run to the end.
\<close>

theorem isChainValid_walk:
  "(isChainValid S J c \<longleftrightarrow>
      (\<forall>i. 1 \<le> i \<and> i < length c \<longrightarrow> self_consistent S J (c ! i) \<and> linked c i))
   \<and> (1 \<le> k \<and> k < length c
        \<and> \<not> (self_consistent S J (c ! k) \<and> linked c k)
        \<and> (\<forall>i. 1 \<le> i \<and> i < k \<longrightarrow> self_consistent S J (c ! i) \<and> linked c i)
      \<longrightarrow> isChainValid_loop S J c 1 = (k, False))
   \<and> (isChainValid S J c \<longrightarrow> isChainValid_loop S J c 1 = (max 1 (length c), True))"
proof (intro conjI impI)
  show "isChainValid S J c \<longleftrightarrow>
      (\<forall>i. 1 \<le> i \<and> i < length c \<longrightarrow> self_consistent S J (c ! i) \<and> linked c i)"
    unfolding isChainValid_def by (rule isChainValid_loop_snd)
next
  assume "1 \<le> k \<and> k < length c
        \<and> \<not> (self_consistent S J (c ! k) \<and> linked c k)
        \<and> (\<forall>i. 1 \<le> i \<and> i < k \<longrightarrow> self_consistent S J (c ! i) \<and> linked c i)"
  then show "isChainValid_loop S J c 1 = (k, False)"
    using isChainValid_loop_first [of 1 k c S J] by blast
next
  assume v: "isChainValid S J c"
  show "isChainValid_loop S J c 1 = (max 1 (length c), True)"
  proof (cases "1 \<le> length c")
    case True
    with v show ?thesis
      using isChainValid_loop_valid [of 1 c S J] by (simp add: isChainValid_def max_def)
  next
    case False
    then show ?thesis by (simp add: isChainValid_loop_end)
  qed
qed

theorem isChainValid_walk_witness:
  "(1 \<le> (2::nat) \<and> 2 < length (sample_chain[2 := (sample_chain ! 2)\<lparr>data := Text ''forged''\<rparr>])
      \<and> \<not> (self_consistent sample_SHA256 sample_stringify
               (sample_chain[2 := (sample_chain ! 2)\<lparr>data := Text ''forged''\<rparr>] ! 2)
             \<and> linked (sample_chain[2 := (sample_chain ! 2)\<lparr>data := Text ''forged''\<rparr>]) 2)
      \<and> self_consistent sample_SHA256 sample_stringify
            (sample_chain[2 := (sample_chain ! 2)\<lparr>data := Text ''forged''\<rparr>] ! 1)
      \<and> linked (sample_chain[2 := (sample_chain ! 2)\<lparr>data := Text ''forged''\<rparr>]) 1)
   \<and> isChainValid_loop sample_SHA256 sample_stringify
        (sample_chain[2 := (sample_chain ! 2)\<lparr>data := Text ''forged''\<rparr>]) 1 = (2, False)
   \<and> isChainValid sample_SHA256 sample_stringify sample_chain
   \<and> isChainValid_loop sample_SHA256 sample_stringify sample_chain 1 = (3, True)"
proof -
  let ?c = "sample_chain[2 := (sample_chain ! 2)\<lparr>data := Text ''forged''\<rparr>]"
  have len: "1 \<le> (2::nat) \<and> 2 < length ?c" by (simp add: sample_chain_length)
  have bad: "\<not> (self_consistent sample_SHA256 sample_stringify (?c ! 2) \<and> linked ?c 2)"
    by code_simp
  have ok1: "self_consistent sample_SHA256 sample_stringify (?c ! 1) \<and> linked ?c 1"
    by code_simp
  have before: "\<forall>i. 1 \<le> i \<and> i < 2 \<longrightarrow>
      self_consistent sample_SHA256 sample_stringify (?c ! i) \<and> linked ?c i"
  proof (intro allI impI)
    fix i :: nat assume "1 \<le> i \<and> i < 2"
    then have "i = 1" by arith
    with ok1 show "self_consistent sample_SHA256 sample_stringify (?c ! i) \<and> linked ?c i"
      by simp
  qed
  from len bad before
  have hyp: "1 \<le> (2::nat) \<and> 2 < length ?c
      \<and> \<not> (self_consistent sample_SHA256 sample_stringify (?c ! 2) \<and> linked ?c 2)
      \<and> (\<forall>i. 1 \<le> i \<and> i < 2 \<longrightarrow>
             self_consistent sample_SHA256 sample_stringify (?c ! i) \<and> linked ?c i)"
    by blast
  have first: "isChainValid_loop sample_SHA256 sample_stringify ?c 1 = (2, False)"
    using isChainValid_walk [where S = sample_SHA256 and J = sample_stringify
        and c = ?c and k = 2] hyp by blast
  have "isChainValid_loop sample_SHA256 sample_stringify sample_chain 1
          = (max 1 (length sample_chain), True)"
    using isChainValid_walk [where S = sample_SHA256 and J = sample_stringify
        and c = sample_chain and k = 0] sample_chain_valid by blast
  then have whole: "isChainValid_loop sample_SHA256 sample_stringify sample_chain 1 = (3, True)"
    by (simp add: sample_chain_length)
  from len bad ok1 first sample_chain_valid whole show ?thesis by blast
qed





text \<open>
  C5. A freshly created ledger has exactly one record, at position \<open>0\<close>, with previous
  digest \<open>"0"\<close>, and \<open>isChainValid\<close> returns \<open>true\<close> on it.
\<close>

theorem genesis_invariant:
  "length (new_Blockchain S J now) = 1 \<and>
   index (new_Blockchain S J now ! 0) = 0 \<and>
   previousHash (new_Blockchain S J now ! 0) = ''0'' \<and>
   isChainValid S J (new_Blockchain S J now)"
  by (simp add: new_Blockchain_def createGenesisBlock_def isChainValid_def
      isChainValid_loop_end)

text \<open>
  C6. The digest stored by the constructor of \<open>Block\<close> is the digest of the position, the
  previous digest, the creation time and the serialised payload, in this order, and
  recomputing the digest of the constructed record gives the stored digest again.
\<close>

theorem digest_determinism:
  "hash (new_Block S J i t d p) = S (number_toString i @ p @ t @ J d) \<and>
   calculateHash S J (new_Block S J i t d p) = hash (new_Block S J i t d p)"
  by (simp add: calculateHash_def)

text \<open>
  C7. For a position \<open>p\<close> with \<open>0 < p < length\<close> and a file whose digest is \<open>f\<close>, the
  verification handler ends in the status \<open>AUTHENTIC\<close> when the \<open>fileHash\<close> stored
  in the payload of the record at \<open>p\<close> is the string \<open>f\<close>, and in the status
  \<open>TAMPERED\<close> otherwise.
  Both are results of the handler, not alerts or exceptions. The chain is arbitrary:
  nothing is assumed about its digests or its linkage, and the handler reads neither.
\<close>

theorem verify_record_against_content:
  assumes "0 < p" and "p < int (length c)" and "hashFile S rd pdf = Inr f"
  shows "verifyCertBtn_click S rd c (Some p) (Some pdf)
           = Inr (if data_fileHash (data (c ! nat p)) = Some (Text f) then AUTHENTIC
                  else TAMPERED)"
  using assms by (auto simp add: verifyCertBtn_click_def Let_def)

theorem verify_record_against_content_witness:
  "(0::int) < 1
   \<and> 1 < int (length (sample_chain[1 := (sample_chain ! 1)\<lparr>previousHash := ''x''\<rparr>]))
   \<and> hashFile sample_SHA256 Some ''p1'' = Inr ''#p1''
   \<and> hashFile sample_SHA256 Some ''p9'' = Inr ''#p9''
   \<and> \<not> isChainValid sample_SHA256 sample_stringify
        (sample_chain[1 := (sample_chain ! 1)\<lparr>previousHash := ''x''\<rparr>])
   \<and> verifyCertBtn_click sample_SHA256 Some
        (sample_chain[1 := (sample_chain ! 1)\<lparr>previousHash := ''x''\<rparr>]) (Some 1) (Some ''p1'')
       = Inr AUTHENTIC
   \<and> verifyCertBtn_click sample_SHA256 Some
        (sample_chain[1 := (sample_chain ! 1)\<lparr>previousHash := ''x''\<rparr>]) (Some 1) (Some ''p9'')
       = Inr TAMPERED"
proof -
  let ?c = "sample_chain[1 := (sample_chain ! 1)\<lparr>previousHash := ''x''\<rparr>]"
  have pos: "(0::int) < 1" by simp
  have len: "1 < int (length ?c)" by (simp add: sample_chain_length)
  have h1: "hashFile sample_SHA256 Some ''p1'' = Inr ''#p1''"
    by (simp add: hashFile_def sample_SHA256_def)
  have h9: "hashFile sample_SHA256 Some ''p9'' = Inr ''#p9''"
    by (simp add: hashFile_def sample_SHA256_def)
  have invalid: "\<not> isChainValid sample_SHA256 sample_stringify ?c"
    by code_simp
  have stored: "data_fileHash (data (?c ! nat 1)) = Some (Text ''#p1'')"
    by code_simp
  have a: "verifyCertBtn_click sample_SHA256 Some ?c (Some 1) (Some ''p1'') = Inr AUTHENTIC"
    using verify_record_against_content [OF pos len h1] stored by simp
  have t: "verifyCertBtn_click sample_SHA256 Some ?c (Some 1) (Some ''p9'') = Inr TAMPERED"
    using verify_record_against_content [OF pos len h9] stored by simp
  from pos len h1 h9 invalid a t show ?thesis by blast
qed

text \<open>
  C8. When the position does not satisfy \<open>0 < p < length\<close>, the verification handler ends
  in the alert for an invalid block number, whatever the file is and whether or not it
  can be read: the file is not hashed and nothing is compared. Position \<open>0\<close> is always
  rejected in this way.
\<close>

theorem verify_position_out_of_range:
  "(\<not> (0 < p \<and> p < int (length c))
      \<longrightarrow> verifyCertBtn_click S rd c (Some p) (Some pdf) = Inl InvalidBlockNumber)
   \<and> verifyCertBtn_click S rd c (Some 0) (Some pdf) = Inl InvalidBlockNumber"
  by (auto simp add: verifyCertBtn_click_def)

theorem verify_position_out_of_range_witness:
  "\<not> ((0::int) < 3 \<and> 3 < int (length sample_chain))
   \<and> verifyCertBtn_click sample_SHA256 (\<lambda>file. None) sample_chain (Some 3) (Some ''p1'')
       = Inl InvalidBlockNumber"
proof -
  have h: "\<not> ((0::int) < 3 \<and> 3 < int (length sample_chain))"
    by (simp add: sample_chain_length)
  from verify_position_out_of_range [where p = 3 and c = sample_chain
      and S = sample_SHA256 and rd = "\<lambda>file. None" and pdf = "''p1''"] h
  have "verifyCertBtn_click sample_SHA256 (\<lambda>file. None) sample_chain (Some 3) (Some ''p1'')
       = Inl InvalidBlockNumber"
    by blast
  with h show ?thesis by blast
qed

text \<open>
  C9. On a chain with at least one record \<open>getLatestBlock\<close> returns the last record. On
  an empty chain it returns \<open>undefined\<close>; it does not fail.
\<close>

theorem getLatestBlock_result:
  "(c \<noteq> [] \<longrightarrow> getLatestBlock c = Inr (Some (last c)))
   \<and> (c = [] \<longrightarrow> getLatestBlock c = Inr None)"
  by (simp add: getLatestBlock_def last_conv_nth)

theorem getLatestBlock_result_witness:
  "sample_chain \<noteq> [] \<and> getLatestBlock sample_chain = Inr (Some (last sample_chain))
   \<and> index (last sample_chain) = 2"
proof -
  have ne: "sample_chain \<noteq> []" using sample_chain_length by auto
  from getLatestBlock_result [of sample_chain] ne
  have "getLatestBlock sample_chain = Inr (Some (last sample_chain))" by blast
  moreover have "index (last sample_chain) = 2" by code_simp
  ultimately show ?thesis using ne by blast
qed

text \<open>
  Against C9 as it was stated: the call on the empty chain returns normally, with
  \<open>undefined\<close>, where an \<open>EmptyChain\<close> failure was expected.
\<close>

theorem getLatestBlock_empty_counterexample:
  "getLatestBlock [] = Inr None \<and> \<not> isl (getLatestBlock [])"
  by (simp add: getLatestBlock_def)

text \<open>
  C10. \<open>isChainValid\<close> never recomputes the digest of the genesis record: on a chain
  that it accepts, overwriting the payload of the record at index \<open>0\<close> with any value,
  leaving the stored digest as it is, gives a chain that it accepts as well.
\<close>

theorem genesis_payload_unchecked:
  assumes "isChainValid S J c" and "c \<noteq> []"
  shows "isChainValid S J (c[0 := (c ! 0)\<lparr>data := d\<rparr>])"
proof (rule isChainValidI)
  let ?c = "c[0 := (c ! 0)\<lparr>data := d\<rparr>]"
  fix i assume i: "1 \<le> i" "i < length ?c"
  then have same: "?c ! i = c ! i" by simp
  have prev: "hash (?c ! (i - 1)) = hash (c ! (i - 1))"
  proof (cases "i - 1 = 0")
    case True
    with assms(2) show ?thesis by simp
  next
    case False
    then show ?thesis by simp
  qed
  from i(2) have "i < length c" by simp
  from valid_chain_checks [OF assms(1) i(1) this]
  show "hash (?c ! i) = calculateHash S J (?c ! i)
      \<and> previousHash (?c ! i) = hash (?c ! (i - 1))"
    by (simp only: same prev)
qed

theorem genesis_payload_unchecked_witness:
  "isChainValid sample_SHA256 sample_stringify sample_chain
   \<and> sample_chain \<noteq> []
   \<and> isChainValid sample_SHA256 sample_stringify
        (sample_chain[0 := (sample_chain ! 0)\<lparr>data := Text ''forged''\<rparr>])"
proof -
  have ne: "sample_chain \<noteq> []" using sample_chain_length by auto
  have "isChainValid sample_SHA256 sample_stringify
        (sample_chain[0 := (sample_chain ! 0)\<lparr>data := Text ''forged''\<rparr>])"
    by (rule genesis_payload_unchecked [OF sample_chain_valid ne])
  with sample_chain_valid ne show ?thesis by blast
qed

end
